theory Spec2Isabelle
  imports Main "HOL-Library.Word"
begin

section \<open>Lowering of \<open>mhlo.xla.rng_get_and_update_state\<close> to arithmetic and memref operations\<close>

text \<open>
  The development embeds \<open>RngGetAndUpdateStatePattern::matchAndRewrite\<close> of
  \<open>hlo_legalize_to_arithmetic.cc\<close>. The pattern looks up or defines the module-level
  global \<open>rng_state\<close>, emits the load/add/store sequence on it and packs the loaded
  value into the pieces of the result tensor. The emitted operations are given the
  run-time meaning of the \<open>memref\<close>, \<open>arith\<close> and \<open>tensor\<close> dialects, so that
  statements about the stored counter and the packed result are statements about the code
  the pattern writes.
\<close>

subsection \<open>The module: a symbol table of top-level operations\<close>

text \<open>
  The operations of the nearest symbol table's first block, in block order. A
  \<open>memref.global\<close> carries its symbol name, its visibility, the bit width of the scalar
  integer it holds, its initial value and the \<open>constant\<close> flag; the alignment, which
  the pattern leaves empty, is not represented. Any other operation that defines a symbol
  (a function, say) is an \<open>OtherSymbolOp\<close>.
\<close>

datatype operation =
    is_GlobalOp: GlobalOp (sym_name: string) (sym_visibility: string) (elem_width: nat)
      (initial_value: nat) (is_constant: bool)
  | OtherSymbolOp (sym_name: string)

type_synonym ModuleOp = "operation list"

text \<open>
  \<open>SymbolTable::lookupNearestSymbolFrom\<close>: the first operation of the symbol table whose
  symbol name is the one asked for, if there is one.
\<close>

definition lookupNearestSymbolFrom :: "ModuleOp \<Rightarrow> string \<Rightarrow> operation option" where
  "lookupNearestSymbolFrom m name = find (\<lambda>oper. sym_name oper = name) m"

subsection \<open>The operation being lowered\<close>

text \<open>
  \<open>XlaRngGetAndUpdateStateOp\<close> is declared outside this file. The pattern reads three
  things from it: \<open>adaptor.delta()\<close>, and the element count and element bit width of
  its statically shaped result type. The width of the integer that \<open>adaptor.delta()\<close>
  yields is the type parameter \<open>'w\<close>; it is read as an unsigned value. The count is an
  \<open>int64_t\<close> that is never negative and the width an \<open>unsigned\<close>; both are natural
  numbers here, and the loop counter \<open>int i\<close> is an integer, which agrees with the C++
  arithmetic as long as \<open>wordSize\<close> and \<open>(numElements - 1) * wordSize\<close> stay below
  \<open>2^31\<close> (an MLIR integer type is at most \<open>2^24 - 1\<close> bits wide).
\<close>

record (overloaded) ('w::len) XlaRngGetAndUpdateStateOp =
  delta :: "'w word"
  numElements :: nat
  wordSize :: nat

subsection \<open>Emitted operations and the rewriter\<close>

text \<open>
  An SSA value is the position of its defining operation in the sequence the rewriter has
  written for one lowering. The integer constants are all of \<open>seedType\<close>, \<open>i128\<close>.
\<close>

type_synonym val = nat

datatype instr =
    GetGlobalOp string
  | LoadOp val
  | ConstantOp "128 word"
  | AddIOp val val
  | StoreOp val val
  | ShRUIOp val val
  | TruncIOp nat val
  | FromElementsOp nat "val list"
  | UnrealizedConversionCastOp val

text \<open>\<open>rewriter.create\<close>: append the operation, hand back its value.\<close>

definition create :: "instr \<Rightarrow> instr list \<Rightarrow> val \<times> instr list" where
  "create ins code = (length code, code @ [ins])"

text \<open>
  \<open>Builder::getIntegerAttr(seedType, int64_t)\<close> builds \<open>APInt(128, value, isSigned)\<close>
  where \<open>isSigned\<close> is whether the type is a signed integer type. \<open>seedType\<close> is the
  signless \<open>i128\<close>, so the 64 bits are zero-extended.
\<close>

definition getIntegerAttr :: "64 word \<Rightarrow> 128 word" where
  "getIntegerAttr v = ucast v"

text \<open>
  \<open>static_cast<int64_t>\<close> of an unsigned integer of width \<open>'w\<close>: the low 64 bits, or
  the value itself when it is narrower.
\<close>

definition static_cast_int64 :: "'w::len word \<Rightarrow> 64 word" where
  "static_cast_int64 v = ucast v"

definition globalName :: string where
  "globalName = ''rng_state''"

definition initialSeed :: "64 word" where
  "initialSeed = 0x7012395"

datatype LogicalResult = success | failure

datatype error = AssertionFailure

record rewrite =
  result :: LogicalResult
  module_after :: ModuleOp
  emitted :: "instr list"

subsection \<open>The pattern\<close>

text \<open>
  Lines 59 to 72, "get or define the global variable": when the lookup finds nothing, a
  private \<open>memref.global\<close> of type \<open>memref<i128>\<close> with the initial seed is created
  at the start of the symbol table's block.
\<close>

definition getOrDefineGlobal :: "ModuleOp \<Rightarrow> operation \<times> ModuleOp" where
  "getOrDefineGlobal m =
     (case lookupNearestSymbolFrom m globalName of
        None \<Rightarrow>
          (let priv = ''private'';
               initialValue = unat (getIntegerAttr initialSeed);
               globalOp = GlobalOp globalName priv 128 initialValue False
           in (globalOp, globalOp # m))
      | Some globalOp \<Rightarrow> (globalOp, m))"

text \<open>Lines 77 to 84, "get and update". The value handed on is \<open>oldVal\<close>.\<close>

definition emitGetAndUpdate :: "'w::len word \<Rightarrow> instr list \<Rightarrow> val \<times> instr list" where
  "emitGetAndUpdate d code0 =
     (let (rngState, code1) = create (GetGlobalOp globalName) code0;
          (oldVal, code2) = create (LoadOp rngState) code1;
          (deltaVal, code3) = create (ConstantOp (getIntegerAttr (static_cast_int64 d))) code2;
          (newVal, code4) = create (AddIOp oldVal deltaVal) code3;
          (_, code5) = create (StoreOp newVal rngState) code4
      in (oldVal, code5))"

text \<open>
  Lines 88 to 94, the packing loop. With \<open>wordSize = 0\<close> the counter never decreases and
  the loop does not end; the function is then \<open>None\<close>.
\<close>

partial_function (option) packLoop ::
  "nat \<Rightarrow> val \<Rightarrow> int \<Rightarrow> instr list \<Rightarrow> val list \<Rightarrow> (instr list \<times> val list) option" where
  "packLoop wSize oldVal i code pieces =
     (if i \<ge> 0 then
        (let (shiftDistance, code1) = create (ConstantOp (getIntegerAttr (word_of_int i))) code;
             (shifted, code2) = create (ShRUIOp oldVal shiftDistance) code1;
             (piece, code3) = create (TruncIOp wSize shifted) code2
         in packLoop wSize oldVal (i - int wSize) code3 (pieces @ [piece]))
      else Some (code, pieces))"

declare packLoop.simps [code]

text \<open>
  \<open>matchAndRewrite\<close>. The assertion of line 73 ends the run when it fails; the only
  \<open>return\<close> is the \<open>success()\<close> of line 104.
\<close>

definition matchAndRewrite ::
  "ModuleOp \<Rightarrow> ('w::len) XlaRngGetAndUpdateStateOp \<Rightarrow> (error + rewrite) option" where
  "matchAndRewrite m op =
     (let (globalOp, m') = getOrDefineGlobal m in
      if \<not> is_GlobalOp globalOp then Some (Inl AssertionFailure)
      else
        (let (oldVal, code) = emitGetAndUpdate (delta op) [] in
         case packLoop (wordSize op) oldVal
                ((int (numElements op) - 1) * int (wordSize op)) code [] of
           None \<Rightarrow> None
         | Some (code1, pieces) \<Rightarrow>
             (let (resultTensor, code2) = create (FromElementsOp (wordSize op) pieces) code1;
                  (_, code3) = create (UnrealizedConversionCastOp resultTensor) code2
              in Some (Inr \<lparr>result = success, module_after = m', emitted = code3\<rparr>))))"

text \<open>
  Modelled from the spec: the conversion driver (\<open>applyPartialConversion\<close>, called on
  line 128 and defined outside this file). It presents the matched operations to the
  pattern one at a time, never concurrently, in an order of its own; each application sees
  the module the previous one left. A failed assertion or a lowering that does not return
  ends the run.
\<close>

fun applyPatterns ::
  "ModuleOp \<Rightarrow> ('w::len) XlaRngGetAndUpdateStateOp list \<Rightarrow>
     (error + ModuleOp \<times> instr list list) option" where
  "applyPatterns m [] = Some (Inr (m, []))"
| "applyPatterns m (op # ops) =
     (case matchAndRewrite m op of
        None \<Rightarrow> None
      | Some (Inl e) \<Rightarrow> Some (Inl e)
      | Some (Inr r) \<Rightarrow>
          (case applyPatterns (module_after r) ops of
             None \<Rightarrow> None
           | Some (Inl e) \<Rightarrow> Some (Inl e)
           | Some (Inr (m', codes)) \<Rightarrow> Some (Inr (m', emitted r # codes))))"

subsection \<open>Run-time meaning of the emitted operations\<close>

text \<open>
  The operations the pattern writes belong to the \<open>memref\<close>, \<open>arith\<close> and
  \<open>tensor\<close> dialects: \<open>memref.get_global\<close> yields a reference to the named global,
  \<open>memref.load\<close> and \<open>memref.store\<close> read and write it, \<open>arith.addi\<close> adds with
  wrap-around, \<open>arith.shrui\<close> shifts right filling with zeros, \<open>arith.trunci\<close> keeps
  the low bits, \<open>tensor.from_elements\<close> collects its operands and the unrealized
  conversion cast reinterprets its operand without changing it.

  The memory holds the \<open>i128\<close> scalar of each global. A value is a reference to a global,
  an \<open>i128\<close>, an integer of a narrower width, or a tensor of such integers. An operation
  whose operands are not of the kind it takes, a shift by 128 or more and a truncation
  that does not narrow have no defined value: \<open>None\<close>.
\<close>

type_synonym memory = "string \<Rightarrow> 128 word option"

datatype rvalue =
    VMemRef string
  | VI128 "128 word"
  | VInt nat nat
  | VTensor nat "nat list"

type_synonym env = "rvalue option list"

definition operand :: "env \<Rightarrow> val \<Rightarrow> rvalue option" where
  "operand e v = (if v < length e then e ! v else None)"

fun elementOf :: "nat \<Rightarrow> rvalue option \<Rightarrow> nat option" where
  "elementOf w (Some (VInt w' x)) = (if w' = w then Some x else None)"
| "elementOf w _ = None"

fun eval :: "memory \<Rightarrow> env \<Rightarrow> instr \<Rightarrow> memory \<times> rvalue option" where
  "eval mem e (GetGlobalOp n) =
     (mem, case mem n of Some _ \<Rightarrow> Some (VMemRef n) | None \<Rightarrow> None)"
| "eval mem e (LoadOp r) =
     (mem, case operand e r of Some (VMemRef n) \<Rightarrow> map_option VI128 (mem n) | _ \<Rightarrow> None)"
| "eval mem e (ConstantOp c) = (mem, Some (VI128 c))"
| "eval mem e (AddIOp a b) =
     (mem, case operand e a of
             Some (VI128 x) \<Rightarrow>
               (case operand e b of Some (VI128 y) \<Rightarrow> Some (VI128 (x + y)) | _ \<Rightarrow> None)
           | _ \<Rightarrow> None)"
| "eval mem e (StoreOp v r) =
     (case operand e v of
        Some (VI128 x) \<Rightarrow>
          (case operand e r of Some (VMemRef n) \<Rightarrow> (mem(n \<mapsto> x), None) | _ \<Rightarrow> (mem, None))
      | _ \<Rightarrow> (mem, None))"
| "eval mem e (ShRUIOp a b) =
     (mem, case operand e a of
             Some (VI128 x) \<Rightarrow>
               (case operand e b of
                  Some (VI128 s) \<Rightarrow>
                    if unat s < 128 then Some (VI128 (drop_bit (unat s) x)) else None
                | _ \<Rightarrow> None)
           | _ \<Rightarrow> None)"
| "eval mem e (TruncIOp w a) =
     (mem, case operand e a of
             Some (VI128 x) \<Rightarrow>
               if 0 < w \<and> w < 128 then Some (VInt w (take_bit w (unat x))) else None
           | _ \<Rightarrow> None)"
| "eval mem e (FromElementsOp w ps) =
     (mem, map_option (VTensor w) (those (map (\<lambda>p. elementOf w (operand e p)) ps)))"
| "eval mem e (UnrealizedConversionCastOp a) = (mem, operand e a)"

fun exec :: "memory \<times> env \<Rightarrow> instr list \<Rightarrow> memory \<times> env" where
  "exec (mem, e) [] = (mem, e)"
| "exec (mem, e) (ins # rest) =
     (case eval mem e ins of (mem', r) \<Rightarrow> exec (mem', e @ [r]) rest)"

text \<open>
  Running the code of one lowering: the memory it leaves, and the value of its last
  operation, which is the one that replaces the lowered operation's result.
\<close>

definition run :: "memory \<Rightarrow> instr list \<Rightarrow> memory \<times> rvalue option" where
  "run mem code =
     (case exec (mem, []) code of (mem', e) \<Rightarrow> (mem', if e = [] then None else last e))"

subsection \<open>Closed forms of the packing code\<close>

text \<open>
  What \<open>k\<close> rounds of the packing loop write when the next free value is \<open>base\<close>, the
  values holding the pieces, the values these operations take when the loaded counter is
  \<open>v\<close>, and the pieces themselves, most significant first. They are used to state what
  \<open>packLoop\<close> and \<open>exec\<close> compute; the pattern itself is \<open>matchAndRewrite\<close> above.
\<close>

fun chunkCode :: "nat \<Rightarrow> val \<Rightarrow> nat \<Rightarrow> nat \<Rightarrow> instr list" where
  "chunkCode w oldVal base 0 = []"
| "chunkCode w oldVal base (Suc k) =
     [ConstantOp (getIntegerAttr (word_of_int (int k * int w))), ShRUIOp oldVal base,
      TruncIOp w (Suc base)] @ chunkCode w oldVal (base + 3) k"

fun chunkIds :: "nat \<Rightarrow> nat \<Rightarrow> val list" where
  "chunkIds base 0 = []"
| "chunkIds base (Suc k) = (base + 2) # chunkIds (base + 3) k"

fun chunks :: "nat \<Rightarrow> 128 word \<Rightarrow> nat \<Rightarrow> nat list" where
  "chunks w v 0 = []"
| "chunks w v (Suc k) = take_bit w (unat (drop_bit (k * w) v)) # chunks w v k"

fun chunkEnv :: "nat \<Rightarrow> 128 word \<Rightarrow> nat \<Rightarrow> env" where
  "chunkEnv w v 0 = []"
| "chunkEnv w v (Suc k) =
     [Some (VI128 (getIntegerAttr (word_of_int (int k * int w)))),
      Some (VI128 (drop_bit (k * w) v)),
      Some (VInt w (take_bit w (unat (drop_bit (k * w) v))))] @ chunkEnv w v k"

definition updateCode :: "'w::len word \<Rightarrow> instr list" where
  "updateCode d =
     [GetGlobalOp globalName, LoadOp 0, ConstantOp (getIntegerAttr (static_cast_int64 d)),
      AddIOp 1 2, StoreOp 3 0]"

definition loweredCode :: "'w::len word \<Rightarrow> nat \<Rightarrow> nat \<Rightarrow> instr list" where
  "loweredCode d n w =
     updateCode d @ chunkCode w 1 5 n @
     [FromElementsOp w (chunkIds 5 n), UnrealizedConversionCastOp (5 + 3 * n)]"

text \<open>The integer a sequence of \<open>w\<close>-bit elements spells, most significant element first.\<close>

definition concatMSF :: "nat \<Rightarrow> nat list \<Rightarrow> nat" where
  "concatMSF w xs = foldl (\<lambda>acc x. acc * 2 ^ w + x) 0 xs"

text \<open>
  The value the lowered code produces for the request when the counter holds \<open>v\<close>:
  \<open>None\<close> when the pattern does not return a rewrite.
\<close>

definition packedOutput ::
  "ModuleOp \<Rightarrow> ('w::len) XlaRngGetAndUpdateStateOp \<Rightarrow> memory \<Rightarrow> 128 word \<Rightarrow> rvalue option option" where
  "packedOutput m op mem v =
     (case matchAndRewrite m op of
        Some (Inr r) \<Rightarrow> Some (snd (run (mem(globalName \<mapsto> v)) (emitted r)))
      | _ \<Rightarrow> None)"

text \<open>The \<open>memref.global\<close> definitions of a module that are named \<open>rng_state\<close>.\<close>

definition counterDefinitions :: "ModuleOp \<Rightarrow> operation list" where
  "counterDefinitions m = filter (\<lambda>oper. is_GlobalOp oper \<and> sym_name oper = globalName) m"

section \<open>Properties\<close>

subsection \<open>The packing loop\<close>

lemma packLoop_neg: "i < 0 \<Longrightarrow> packLoop w oldVal i code pieces = Some (code, pieces)"
  by (subst packLoop.simps) simp

lemma packLoop_step:
  "0 \<le> i \<Longrightarrow> packLoop w oldVal i code pieces =
     packLoop w oldVal (i - int w)
       (code @ [ConstantOp (getIntegerAttr (word_of_int i)), ShRUIOp oldVal (length code),
                TruncIOp w (Suc (length code))])
       (pieces @ [length code + 2])"
  by (subst packLoop.simps) (simp add: create_def)

lemma packLoop_unroll:
  "0 < w \<Longrightarrow> packLoop w oldVal (int k * int w - int w) code pieces =
     Some (code @ chunkCode w oldVal (length code) k, pieces @ chunkIds (length code) k)"
proof (induction k arbitrary: code pieces)
  case 0
  then show ?case by (simp add: packLoop_neg)
next
  case (Suc k)
  have eq: "int (Suc k) * int w - int w = int k * int w" by (simp add: algebra_simps)
  have "packLoop w oldVal (int k * int w) code pieces =
     packLoop w oldVal (int k * int w - int w)
       (code @ [ConstantOp (getIntegerAttr (word_of_int (int k * int w))), ShRUIOp oldVal (length code),
                TruncIOp w (Suc (length code))])
       (pieces @ [length code + 2])"
    by (rule packLoop_step) simp
  with Suc show ?case unfolding eq by (simp add: numeral_3_eq_3)
qed

lemma packLoop_zero_width_aux:
  assumes "packLoop w oldVal0 i0 code0 pieces0 = Some r0"
  shows "w = 0 \<longrightarrow> i0 < 0"
proof (rule packLoop.raw_induct
    [where P = "\<lambda>w oldVal i code pieces r. w = 0 \<longrightarrow> i < 0", OF _ assms])
  fix f :: "nat \<Rightarrow> val \<Rightarrow> int \<Rightarrow> instr list \<Rightarrow> val list \<Rightarrow> (instr list \<times> val list) option"
  fix wSize oldVal i code pieces r
  assume IH: "\<And>wSize oldVal i code pieces r. f wSize oldVal i code pieces = Some r \<Longrightarrow> wSize = 0 \<longrightarrow> i < 0"
  assume body: "(if 0 \<le> i
      then let (shiftDistance, code1) =
                 create (ConstantOp (getIntegerAttr (word_of_int i))) code;
               (shifted, code2) =
                 create (ShRUIOp oldVal shiftDistance) code1;
               (piece, code3) = create (TruncIOp wSize shifted) code2
           in f wSize oldVal (i - int wSize) code3 (pieces @ [piece])
      else Some (code, pieces)) = Some r"
  show "wSize = 0 \<longrightarrow> i < 0"
  proof (cases "0 \<le> i")
    case True
    with body have "f wSize oldVal (i - int wSize)
       (code @ [ConstantOp (getIntegerAttr (word_of_int i)), ShRUIOp oldVal (length code),
                TruncIOp wSize (Suc (length code))]) (pieces @ [Suc (Suc (length code))]) = Some r"
      by (simp add: create_def)
    from IH [OF this] True show ?thesis by auto
  next
    case False
    then show ?thesis by simp
  qed
qed

lemma packLoop_zero_width: "0 \<le> i \<Longrightarrow> packLoop 0 oldVal i code pieces = None"
  using packLoop_zero_width_aux [of 0 oldVal i code pieces] by (cases "packLoop 0 oldVal i code pieces") auto


subsection \<open>Executing the emitted code\<close>

lemma operand_append:
  "operand (e @ e') v = (if v < length e then operand e v else operand e' (v - length e))"
  by (auto simp: operand_def nth_append)

lemma operand_Cons_0: "operand (x # e) 0 = x"
  by (simp add: operand_def)

lemma operand_Cons_Suc: "operand (x # e) (Suc v) = operand e v"
  by (simp add: operand_def)

lemma operand_Nil: "operand [] v = None"
  by (simp add: operand_def)

lemma exec_append: "exec st (xs @ ys) = exec (exec st xs) ys"
proof (induction xs arbitrary: st)
  case Nil
  then show ?case by (cases st) simp
next
  case (Cons x xs)
  then show ?case by (cases st) (simp split: prod.splits)
qed

lemma unat_ucast_small:
  "unat x < 2 ^ LENGTH('b) \<Longrightarrow> unat (ucast x :: 'b::len word) = unat x"
  for x :: "'a::len word"
  by (simp add: unsigned_ucast_eq take_bit_nat_eq_self)

lemma unat_getIntegerAttr: "unat (getIntegerAttr x) = unat x"
proof -
  have "unat x < 2 ^ 64" using unsigned_less [of x] by simp
  then have "unat x < 2 ^ LENGTH(128)" by simp
  then show ?thesis unfolding getIntegerAttr_def by (rule unat_ucast_small)
qed

lemma unat_shiftDistance:
  assumes "k * w < 2 ^ 64"
  shows "unat (getIntegerAttr (word_of_int (int k * int w))) = k * w"
proof -
  have e: "(word_of_int (int k * int w) :: 64 word) = word_of_nat (k * w)" by simp
  have "unat (word_of_nat (k * w) :: 64 word) = k * w"
    using assms by (intro of_nat_inverse [OF refl]) simp
  then have "unat (word_of_int (int k * int w) :: 64 word) = k * w"
    by (simp only: e)
  then show ?thesis by (simp only: unat_getIntegerAttr)
qed

lemma exec_triple:
  assumes old: "oldVal < length e" "operand e oldVal = Some (VI128 v)"
    and w: "0 < w" "w < 128" and s: "k * w < 128"
  shows "exec (mem, e)
           [ConstantOp (getIntegerAttr (word_of_int (int k * int w))), ShRUIOp oldVal (length e),
            TruncIOp w (Suc (length e))] =
         (mem, e @ [Some (VI128 (getIntegerAttr (word_of_int (int k * int w)))),
                    Some (VI128 (drop_bit (k * w) v)),
                    Some (VInt w (take_bit w (unat (drop_bit (k * w) v))))])"
proof -
  have u: "unat (getIntegerAttr (word_of_int (int k * int w))) = k * w"
    using s by (intro unat_shiftDistance) simp
  show ?thesis
    using old w s u by (simp add: operand_append operand_Cons_0 operand_Cons_Suc)
qed

lemma exec_chunkCode:
  "oldVal < length e \<Longrightarrow> operand e oldVal = Some (VI128 v) \<Longrightarrow> 0 < w \<Longrightarrow> w < 128 \<Longrightarrow>
   k * w < 128 + w \<Longrightarrow>
   exec (mem, e) (chunkCode w oldVal (length e) k) = (mem, e @ chunkEnv w v k)"
proof (induction k arbitrary: e)
  case 0
  then show ?case by simp
next
  case (Suc k)
  let ?e' = "e @ [Some (VI128 (getIntegerAttr (word_of_int (int k * int w)))),
                    Some (VI128 (drop_bit (k * w) v)),
                    Some (VInt w (take_bit w (unat (drop_bit (k * w) v))))]"
  have s: "k * w < 128" using Suc.prems by simp
  have t: "exec (mem, e)
           [ConstantOp (getIntegerAttr (word_of_int (int k * int w))), ShRUIOp oldVal (length e),
            TruncIOp w (Suc (length e))] = (mem, ?e')"
    using Suc.prems s by (intro exec_triple) auto
  have l: "length ?e' = length e + 3" by simp
  have "exec (mem, ?e') (chunkCode w oldVal (length ?e') k) = (mem, ?e' @ chunkEnv w v k)"
    using Suc.prems by (intro Suc.IH) (auto simp: operand_append)
  then show ?case
    unfolding chunkCode.simps exec_append t l by simp
qed

lemma length_chunkEnv: "length (chunkEnv w v k) = 3 * k"
  by (induction k) auto

lemma length_chunkCode: "length (chunkCode w oldVal base k) = 3 * k"
  by (induction k arbitrary: base) auto

lemma elements_chunkIds:
  "map (\<lambda>p. elementOf w (operand (e @ chunkEnv w v k @ e') p)) (chunkIds (length e) k) =
   map Some (chunks w v k)"
proof (induction k arbitrary: e)
  case 0
  then show ?case by simp
next
  case (Suc k)
  let ?t = "[Some (VI128 (getIntegerAttr (word_of_int (int k * int w)))),
                    Some (VI128 (drop_bit (k * w) v)),
                    Some (VInt w (take_bit w (unat (drop_bit (k * w) v))))]"
  have "map (\<lambda>p. elementOf w (operand ((e @ ?t) @ chunkEnv w v k @ e') p)) (chunkIds (length (e @ ?t)) k) =
   map Some (chunks w v k)" by (rule Suc.IH)
  then have r: "map (\<lambda>p. elementOf w (operand (e @ ?t @ chunkEnv w v k @ e') p)) (chunkIds (length e + 3) k) =
   map Some (chunks w v k)" by (simp add: numeral_3_eq_3)
  have h: "elementOf w (operand (e @ ?t @ chunkEnv w v k @ e') (length e + 2)) =
     Some (take_bit w (unat (drop_bit (k * w) v)))"
    by (simp add: operand_def nth_append)
  show ?case using r h by (simp add: numeral_3_eq_3)
qed

lemma those_map_Some: "those (map Some xs) = Some xs"
  by (induction xs) auto


lemma emitGetAndUpdate_eq: "emitGetAndUpdate d [] = (1, updateCode d)"
  by (simp add: emitGetAndUpdate_def create_def updateCode_def)

lemma length_updateCode: "length (updateCode d) = 5"
  by (simp add: updateCode_def)

lemma is_GlobalOp_getOrDefineGlobal:
  "is_GlobalOp (fst (getOrDefineGlobal m)) \<longleftrightarrow>
   (\<forall>g. lookupNearestSymbolFrom m globalName = Some g \<longrightarrow> is_GlobalOp g)"
  by (auto simp: getOrDefineGlobal_def Let_def split: option.splits)

lemma matchAndRewrite_abort:
  "\<not> is_GlobalOp (fst (getOrDefineGlobal m)) \<Longrightarrow> matchAndRewrite m op = Some (Inl AssertionFailure)"
  by (simp add: matchAndRewrite_def case_prod_beta)

lemma matchAndRewrite_diverge:
  assumes "is_GlobalOp (fst (getOrDefineGlobal m))" "wordSize op = 0"
  shows "matchAndRewrite m op = None"
proof -
  have "packLoop 0 1 ((int (numElements op) - 1) * int 0) (updateCode (delta op)) [] = None"
    by (rule packLoop_zero_width) simp
  with assms show ?thesis
    by (simp add: matchAndRewrite_def emitGetAndUpdate_eq case_prod_beta)
qed

lemma matchAndRewrite_ok:
  assumes "is_GlobalOp (fst (getOrDefineGlobal m))" "0 < wordSize op"
  shows "matchAndRewrite m op =
     Some (Inr \<lparr>result = success, module_after = snd (getOrDefineGlobal m),
                emitted = loweredCode (delta op) (numElements op) (wordSize op)\<rparr>)"
proof -
  have i: "(int (numElements op) - 1) * int (wordSize op) =
      int (numElements op) * int (wordSize op) - int (wordSize op)"
    by (simp add: algebra_simps)
  have "packLoop (wordSize op) 1 ((int (numElements op) - 1) * int (wordSize op))
          (updateCode (delta op)) [] =
        Some (updateCode (delta op) @ chunkCode (wordSize op) 1 5 (numElements op),
              chunkIds 5 (numElements op))"
    unfolding i using packLoop_unroll [OF assms(2), of 1 "numElements op" "updateCode (delta op)" "[]"]
    by (simp add: length_updateCode)
  with assms(1) show ?thesis
    by (simp add: matchAndRewrite_def emitGetAndUpdate_eq create_def loweredCode_def
        length_updateCode length_chunkCode case_prod_beta)
qed

lemma exec_updateCode:
  assumes "mem globalName = Some old"
  shows "exec (mem, []) (updateCode d) =
     (mem(globalName \<mapsto> old + getIntegerAttr (static_cast_int64 d)),
      [Some (VMemRef globalName), Some (VI128 old),
       Some (VI128 (getIntegerAttr (static_cast_int64 d))),
       Some (VI128 (old + getIntegerAttr (static_cast_int64 d))), None])"
  using assms by (simp add: updateCode_def operand_def)

lemma fst_eval_no_store: "\<forall>v r. ins \<noteq> StoreOp v r \<Longrightarrow> fst (eval mem e ins) = mem"
  by (cases ins) (auto split: option.splits rvalue.splits)

lemma fst_exec_no_store:
  "\<forall>ins \<in> set code. \<forall>v r. ins \<noteq> StoreOp v r \<Longrightarrow> fst (exec (mem, e) code) = mem"
proof (induction code arbitrary: e)
  case Nil
  then show ?case by simp
next
  case (Cons ins code)
  have "fst (eval mem e ins) = mem" using Cons.prems by (intro fst_eval_no_store) simp
  then obtain r where "eval mem e ins = (mem, r)" by (cases "eval mem e ins") simp
  with Cons show ?case by simp
qed

lemma chunkCode_no_store: "ins \<in> set (chunkCode w oldVal base k) \<Longrightarrow> ins \<noteq> StoreOp v r"
  by (induction k arbitrary: base) auto

lemma fst_run_loweredCode:
  assumes "mem globalName = Some old"
  shows "fst (run mem (loweredCode d n w)) =
         mem(globalName \<mapsto> old + getIntegerAttr (static_cast_int64 d))"
proof -
  let ?rest = "chunkCode w 1 5 n @
     [FromElementsOp w (chunkIds 5 n), UnrealizedConversionCastOp (5 + 3 * n)]"
  have "\<forall>ins \<in> set ?rest. \<forall>v r. ins \<noteq> StoreOp v r"
    using chunkCode_no_store by auto
  then have "fst (exec (mem', e) ?rest) = mem'" for mem' e
    by (rule fst_exec_no_store)
  then show ?thesis
    using assms
    by (simp add: run_def loweredCode_def exec_append exec_updateCode [of mem old d]
        split: prod.splits) (metis fst_conv)
qed

lemma exec_tail:
  assumes "map (\<lambda>p. elementOf w (operand e p)) ps = map Some xs" and "length e = n"
  shows "exec (mem, e) [FromElementsOp w ps, UnrealizedConversionCastOp n] =
         (mem, e @ [Some (VTensor w xs), Some (VTensor w xs)])"
  using assms by (simp add: those_map_Some operand_def nth_append)

lemma exec_loweredCode:
  assumes "mem globalName = Some old" "n = 0 \<or> 0 < w \<and> w < 128 \<and> n * w < 128 + w"
  shows "exec (mem, []) (loweredCode d n w) =
     (mem(globalName \<mapsto> old + getIntegerAttr (static_cast_int64 d)),
      ([Some (VMemRef globalName), Some (VI128 old),
       Some (VI128 (getIntegerAttr (static_cast_int64 d))),
       Some (VI128 (old + getIntegerAttr (static_cast_int64 d))), None] @ chunkEnv w old n) @
      [Some (VTensor w (chunks w old n)), Some (VTensor w (chunks w old n))])"
proof -
  let ?mem' = "mem(globalName \<mapsto> old + getIntegerAttr (static_cast_int64 d))"
  let ?e5 = "[Some (VMemRef globalName), Some (VI128 old),
       Some (VI128 (getIntegerAttr (static_cast_int64 d))),
       Some (VI128 (old + getIntegerAttr (static_cast_int64 d))), None]"
  have l5: "length ?e5 = 5" by simp
  have s1: "exec (mem, []) (updateCode d) = (?mem', ?e5)"
    using assms(1) by (rule exec_updateCode)
  have "exec (?mem', ?e5) (chunkCode w 1 (length ?e5) n) = (?mem', ?e5 @ chunkEnv w old n)"
  proof (cases "n = 0")
    case True
    then show ?thesis by simp
  next
    case False
    with assms(2) show ?thesis by (intro exec_chunkCode) (auto simp: operand_def)
  qed
  then have s2: "exec (?mem', ?e5) (chunkCode w 1 5 n) = (?mem', ?e5 @ chunkEnv w old n)"
    by (simp only: l5)
  have "map (\<lambda>p. elementOf w (operand (?e5 @ chunkEnv w old n @ []) p)) (chunkIds (length ?e5) n) =
     map Some (chunks w old n)"
    by (rule elements_chunkIds)
  then have el: "map (\<lambda>p. elementOf w (operand (?e5 @ chunkEnv w old n) p)) (chunkIds 5 n) =
     map Some (chunks w old n)"
    by (simp only: l5 append_Nil2)
  have s3: "exec (?mem', ?e5 @ chunkEnv w old n)
       [FromElementsOp w (chunkIds 5 n), UnrealizedConversionCastOp (5 + 3 * n)] =
      (?mem', (?e5 @ chunkEnv w old n) @
         [Some (VTensor w (chunks w old n)), Some (VTensor w (chunks w old n))])"
    using el by (rule exec_tail) (simp add: length_chunkEnv)
  show ?thesis
    by (simp only: loweredCode_def exec_append s1 s2 s3)
qed

lemma snd_run_loweredCode:
  assumes "mem globalName = Some old" "n = 0 \<or> 0 < w \<and> w < 128 \<and> n * w < 128 + w"
  shows "snd (run mem (loweredCode d n w)) = Some (VTensor w (chunks w old n))"
  using assms by (simp add: run_def exec_loweredCode [of mem old n w d])


subsection \<open>The pattern in closed form\<close>

lemma getOrDefineGlobal_None:
  "lookupNearestSymbolFrom m globalName = None \<Longrightarrow>
   getOrDefineGlobal m =
     (GlobalOp ''rng_state'' ''private'' 128 0x7012395 False,
      GlobalOp ''rng_state'' ''private'' 128 0x7012395 False # m)"
  by (simp add: getOrDefineGlobal_def globalName_def getIntegerAttr_def initialSeed_def Let_def)

lemma getOrDefineGlobal_Some:
  "lookupNearestSymbolFrom m globalName = Some g \<Longrightarrow> getOrDefineGlobal m = (g, m)"
  by (simp add: getOrDefineGlobal_def)

lemma lookup_created:
  "lookupNearestSymbolFrom (GlobalOp ''rng_state'' p w i c # m) globalName =
   Some (GlobalOp ''rng_state'' p w i c)"
  by (simp add: lookupNearestSymbolFrom_def globalName_def)

lemma matchAndRewrite_returns:
  assumes "\<forall>g. lookupNearestSymbolFrom m globalName = Some g \<longrightarrow> is_GlobalOp g"
    and "0 < wordSize op"
  shows "matchAndRewrite m op =
     Some (Inr \<lparr>result = success, module_after = snd (getOrDefineGlobal m),
                emitted = loweredCode (delta op) (numElements op) (wordSize op)\<rparr>)"
  using assms by (intro matchAndRewrite_ok) (simp_all add: is_GlobalOp_getOrDefineGlobal)

lemma matchAndRewrite_cases:
  "matchAndRewrite m op = Some (Inl AssertionFailure) \<and> \<not> is_GlobalOp (fst (getOrDefineGlobal m)) \<or>
   matchAndRewrite m op = None \<and> is_GlobalOp (fst (getOrDefineGlobal m)) \<and> wordSize op = 0 \<or>
   matchAndRewrite m op =
     Some (Inr \<lparr>result = success, module_after = snd (getOrDefineGlobal m),
                emitted = loweredCode (delta op) (numElements op) (wordSize op)\<rparr>) \<and>
     is_GlobalOp (fst (getOrDefineGlobal m)) \<and> 0 < wordSize op"
  using matchAndRewrite_abort [of m op] matchAndRewrite_diverge [of m op]
    matchAndRewrite_ok [of m op]
  by (cases "is_GlobalOp (fst (getOrDefineGlobal m))"; cases "wordSize op = 0") auto

lemma packedOutput_ok:
  assumes "\<forall>g. lookupNearestSymbolFrom m globalName = Some g \<longrightarrow> is_GlobalOp g"
    and "0 < wordSize op"
    and "numElements op = 0 \<or> wordSize op < 128 \<and> numElements op * wordSize op < 128 + wordSize op"
  shows "packedOutput m op mem v =
     Some (Some (VTensor (wordSize op) (chunks (wordSize op) v (numElements op))))"
proof -
  have "(mem(globalName \<mapsto> v)) globalName = Some v" by simp
  then have "snd (run (mem(globalName \<mapsto> v)) (loweredCode (delta op) (numElements op) (wordSize op))) =
     Some (VTensor (wordSize op) (chunks (wordSize op) v (numElements op)))"
    using assms(2,3)
    by (intro snd_run_loweredCode [of "mem(globalName \<mapsto> v)" v]) auto
  then show ?thesis
    by (simp add: packedOutput_def matchAndRewrite_returns [OF assms(1,2)])
qed

lemma lookup_None_iff:
  "lookupNearestSymbolFrom m name = None \<longleftrightarrow> (\<forall>oper \<in> set m. sym_name oper \<noteq> name)"
  by (auto simp: lookupNearestSymbolFrom_def find_None_iff)

lemma lookup_Some_D:
  "lookupNearestSymbolFrom m name = Some g \<Longrightarrow> g \<in> set m \<and> sym_name g = name"
  by (auto simp: lookupNearestSymbolFrom_def find_Some_iff)

lemma filter_distinct_name:
  "distinct (map f xs) \<Longrightarrow> x \<in> set xs \<Longrightarrow> filter (\<lambda>y. f y = f x) xs = [x]"
proof (induction xs)
  case Nil
  then show ?case by simp
next
  case (Cons a xs)
  show ?case
  proof (cases "a = x")
    case True
    have "f x \<notin> f ` set xs" using Cons.prems(1) True by simp
    then have "\<forall>y \<in> set xs. f y \<noteq> f x" by (metis imageI)
    then have "filter (\<lambda>y. f y = f x) xs = []" by (simp add: filter_empty_conv)
    with True show ?thesis by simp
  next
    case False
    with Cons.prems have x: "x \<in> set xs" by simp
    with Cons.prems(1) have "f a \<noteq> f x" by (metis distinct.simps(2) imageI list.simps(9) set_map)
    moreover have "filter (\<lambda>y. f y = f x) xs = [x]" using Cons.IH Cons.prems(1) x by simp
    ultimately show ?thesis by simp
  qed
qed

lemma counterDefinitions_found:
  assumes "distinct (map sym_name m)" "lookupNearestSymbolFrom m globalName = Some g" "is_GlobalOp g"
  shows "counterDefinitions m = [g]"
proof -
  from lookup_Some_D [OF assms(2)] have g: "g \<in> set m" "sym_name g = globalName" by auto
  have "filter (\<lambda>y. sym_name y = sym_name g) m = [g]"
    using assms(1) g(1) by (rule filter_distinct_name)
  then have f: "filter (\<lambda>y. sym_name y = globalName) m = [g]" by (simp add: g(2))
  have "counterDefinitions m = filter is_GlobalOp (filter (\<lambda>y. sym_name y = globalName) m)"
    by (simp add: counterDefinitions_def conj_commute)
  then show ?thesis using f assms(3) by simp
qed

lemma counterDefinitions_created:
  assumes "lookupNearestSymbolFrom m globalName = None"
  shows "counterDefinitions (GlobalOp ''rng_state'' p w i c # m) = [GlobalOp ''rng_state'' p w i c]"
proof -
  have "\<forall>oper \<in> set m. sym_name oper \<noteq> globalName"
    using assms by (simp add: lookup_None_iff)
  then have "filter (\<lambda>oper. is_GlobalOp oper \<and> sym_name oper = globalName) m = []"
    by (simp add: filter_empty_conv)
  then show ?thesis by (simp add: counterDefinitions_def globalName_def)
qed

lemma applyPatterns_defined:
  assumes "lookupNearestSymbolFrom m globalName = Some g" "is_GlobalOp g"
    and "\<forall>op \<in> set ops. 0 < wordSize op"
  shows "applyPatterns m ops =
     Some (Inr (m, map (\<lambda>op. loweredCode (delta op) (numElements op) (wordSize op)) ops))"
  using assms(3)
proof (induction ops)
  case Nil
  then show ?case by simp
next
  case (Cons op ops)
  have "matchAndRewrite m op =
     Some (Inr \<lparr>result = success, module_after = snd (getOrDefineGlobal m),
                emitted = loweredCode (delta op) (numElements op) (wordSize op)\<rparr>)"
    using assms(1,2) Cons.prems by (intro matchAndRewrite_returns) auto
  moreover have "snd (getOrDefineGlobal m) = m"
    by (simp add: getOrDefineGlobal_Some [OF assms(1)])
  ultimately show ?case using Cons by simp
qed

lemma applyPatterns_first:
  assumes "\<forall>g. lookupNearestSymbolFrom m globalName = Some g \<longrightarrow> is_GlobalOp g"
    and "\<forall>op \<in> set (op # ops). 0 < wordSize op"
  shows "applyPatterns m (op # ops) =
     Some (Inr (snd (getOrDefineGlobal m),
                map (\<lambda>op. loweredCode (delta op) (numElements op) (wordSize op)) (op # ops)))"
proof -
  let ?m' = "snd (getOrDefineGlobal m)"
  have r: "matchAndRewrite m op =
     Some (Inr \<lparr>result = success, module_after = ?m',
                emitted = loweredCode (delta op) (numElements op) (wordSize op)\<rparr>)"
    using assms by (intro matchAndRewrite_returns) auto
  obtain g where g: "lookupNearestSymbolFrom ?m' globalName = Some g" "is_GlobalOp g"
  proof (cases "lookupNearestSymbolFrom m globalName")
    case None
    show ?thesis
      using that [of "GlobalOp ''rng_state'' ''private'' 128 0x7012395 False"]
      by (simp add: getOrDefineGlobal_None [OF None] lookup_created)
  next
    case (Some g)
    with assms(1) show ?thesis using that [of g] by (simp add: getOrDefineGlobal_Some)
  qed
  have "applyPatterns ?m' ops =
     Some (Inr (?m', map (\<lambda>op. loweredCode (delta op) (numElements op) (wordSize op)) ops))"
    using g assms(2) by (intro applyPatterns_defined) auto
  with r show ?thesis by simp
qed

subsection \<open>The singleton counter definition\<close>

text \<open>
  C1. Take a module whose symbol table is well formed (symbol names are unique) and in
  which a symbol \<open>rng_state\<close>, if there is one, is a \<open>memref.global\<close>. Lowering any
  \<open>K \<ge> 1\<close> requests of positive element width, one after the other, ends with a module
  that holds exactly one global definition named \<open>rng_state\<close>: the module is the given
  one when the name was found, and the given one with the new global in front when it was
  not; a further find-or-create on the result returns that same definition and leaves the
  module as it is.
\<close>

theorem C1_single_counter_definition:
  assumes "distinct (map sym_name m)"
    and "\<forall>g. lookupNearestSymbolFrom m globalName = Some g \<longrightarrow> is_GlobalOp g"
    and "ops \<noteq> []"
    and "\<forall>op \<in> set ops. 0 < wordSize op"
  shows "\<exists>m' codes g.
           applyPatterns m ops = Some (Inr (m', codes)) \<and>
           length codes = length ops \<and>
           m' = (if lookupNearestSymbolFrom m globalName = None then g # m else m) \<and>
           counterDefinitions m' = [g] \<and>
           getOrDefineGlobal m' = (g, m')"
proof -
  from assms(3) obtain op rest where ops: "ops = op # rest" by (cases ops) auto
  let ?m' = "snd (getOrDefineGlobal m)"
  let ?codes = "map (\<lambda>op. loweredCode (delta op) (numElements op) (wordSize op)) ops"
  have run: "applyPatterns m ops = Some (Inr (?m', ?codes))"
    using assms(2,4) unfolding ops by (rule applyPatterns_first)
  show ?thesis
  proof (cases "lookupNearestSymbolFrom m globalName")
    case None
    let ?g = "GlobalOp ''rng_state'' ''private'' 128 0x7012395 False"
    have m': "?m' = ?g # m" by (simp add: getOrDefineGlobal_None [OF None])
    have "counterDefinitions (?g # m) = [?g]" using None by (rule counterDefinitions_created)
    then have c: "counterDefinitions (?g # m) = [?g]" .
    have i: "getOrDefineGlobal (?g # m) = (?g, ?g # m)"
      by (rule getOrDefineGlobal_Some) (rule lookup_created)
    show ?thesis using run m' None c i by auto
  next
    case (Some g)
    with assms(2) have gl: "is_GlobalOp g" by simp
    have m': "?m' = m" by (simp add: getOrDefineGlobal_Some [OF Some])
    have "counterDefinitions m = [g]" using assms(1) Some gl by (rule counterDefinitions_found)
    then have c: "counterDefinitions m = [g]" .
    have i: "getOrDefineGlobal m = (g, m)" using Some by (rule getOrDefineGlobal_Some)
    show ?thesis using run m' Some c i by auto
  qed
qed


theorem C1_single_counter_definition_witness:
  "\<exists>m' codes g.
     applyPatterns [OtherSymbolOp ''main'']
       [\<lparr>delta = 5 :: 64 word, numElements = 2, wordSize = 64\<rparr>,
        \<lparr>delta = 7, numElements = 1, wordSize = 32\<rparr>] = Some (Inr (m', codes)) \<and>
     length codes = 2 \<and> m' = g # [OtherSymbolOp ''main''] \<and>
     counterDefinitions m' = [g] \<and> getOrDefineGlobal m' = (g, m')"
proof -
  let ?m = "[OtherSymbolOp ''main'']"
  let ?ops = "[\<lparr>delta = 5 :: 64 word, numElements = 2, wordSize = 64\<rparr>,
        \<lparr>delta = 7, numElements = 1, wordSize = 32\<rparr>]"
  have n: "lookupNearestSymbolFrom ?m globalName = None"
    by (simp add: lookupNearestSymbolFrom_def globalName_def)
  have h1: "distinct (map sym_name ?m)" by simp
  have h2: "\<forall>g. lookupNearestSymbolFrom ?m globalName = Some g \<longrightarrow> is_GlobalOp g"
    by (simp add: n)
  have h3: "?ops \<noteq> []" by simp
  have h4: "\<forall>op \<in> set ?ops. 0 < wordSize op" by simp
  from C1_single_counter_definition [OF h1 h2 h3 h4] show ?thesis
    by (simp add: n numeral_2_eq_2 del: applyPatterns.simps)
qed

subsection \<open>The assertion and the return value\<close>



text \<open>
  C10. Whatever the module and the matched operation, a rewrite that \<open>matchAndRewrite\<close>
  returns carries \<open>success\<close>, never \<open>failure\<close>; and with the assertion's condition met
  and a positive element width it does return one.
\<close>

theorem C10_never_failure:
  "(\<forall>r. matchAndRewrite m op = Some (Inr r) \<longrightarrow> result r = success) \<and>
   ((\<forall>g. lookupNearestSymbolFrom m globalName = Some g \<longrightarrow> is_GlobalOp g) \<and> 0 < wordSize op \<longrightarrow>
      (\<exists>r. matchAndRewrite m op = Some (Inr r) \<and> result r = success))"
  using matchAndRewrite_cases [of m op]
  by (auto simp: is_GlobalOp_getOrDefineGlobal)

theorem C10_never_failure_witness:
  "\<exists>r. matchAndRewrite [] \<lparr>delta = 5 :: 64 word, numElements = 2, wordSize = 64\<rparr> = Some (Inr r) \<and>
     result r = success"
  using C10_never_failure [of "[]" "\<lparr>delta = 5 :: 64 word, numElements = 2, wordSize = 64\<rparr>"]
  by (simp add: lookupNearestSymbolFrom_def)

subsection \<open>Packing\<close>

text \<open>
  C8. With element count 0 and a positive element width the packing loop returns at once,
  with the code and the pieces it was given: no round is run. The value the lowered code
  produces is then the tensor with no elements.
\<close>

theorem C8_zero_elements:
  assumes "numElements op = 0" and "0 < wordSize op"
  shows "packLoop (wordSize op) oldVal ((int (numElements op) - 1) * int (wordSize op)) code pieces =
           Some (code, pieces) \<and>
         ((\<forall>g. lookupNearestSymbolFrom m globalName = Some g \<longrightarrow> is_GlobalOp g) \<longrightarrow>
            packedOutput m op mem v = Some (Some (VTensor (wordSize op) [])))"
proof -
  have "(int (numElements op) - 1) * int (wordSize op) < 0"
    using assms by simp
  then have "packLoop (wordSize op) oldVal ((int (numElements op) - 1) * int (wordSize op)) code pieces =
           Some (code, pieces)"
    by (rule packLoop_neg)
  moreover have "packedOutput m op mem v = Some (Some (VTensor (wordSize op) []))"
    if "\<forall>g. lookupNearestSymbolFrom m globalName = Some g \<longrightarrow> is_GlobalOp g"
    using packedOutput_ok [OF that assms(2), of mem v] assms(1) by simp
  ultimately show ?thesis by blast
qed

theorem C8_zero_elements_witness:
  "packLoop 64 1 ((int 0 - 1) * int 64) [] [] = Some ([], []) \<and>
   packedOutput [] \<lparr>delta = 5 :: 64 word, numElements = 0, wordSize = 64\<rparr> Map.empty 7 =
     Some (Some (VTensor 64 []))"
  using C8_zero_elements [of "\<lparr>delta = 5 :: 64 word, numElements = 0, wordSize = 64\<rparr>" 1 "[]" "[]" "[]"
      Map.empty 7]
  by (simp add: lookupNearestSymbolFrom_def)


lemma chunks_eq_map:
  "chunks w v n = map (\<lambda>j. take_bit w (unat (drop_bit ((n - 1 - j) * w) v))) [0..<n]"
proof (induction n)
  case 0
  then show ?case by simp
next
  case (Suc n)
  have "map (\<lambda>j. take_bit w (unat (drop_bit ((Suc n - 1 - j) * w) v))) [0..<Suc n] =
        take_bit w (unat (drop_bit (n * w) v)) #
        map (\<lambda>j. take_bit w (unat (drop_bit ((Suc n - 1 - j) * w) v))) (map Suc [0..<n])"
    by (simp only: upt_conv_Cons [of 0 "Suc n"] map_Suc_upt) simp
  also have "map (\<lambda>j. take_bit w (unat (drop_bit ((Suc n - 1 - j) * w) v))) (map Suc [0..<n]) =
        map (\<lambda>j. take_bit w (unat (drop_bit ((n - 1 - j) * w) v))) [0..<n]"
    by simp
  finally show ?case using Suc by simp
qed

lemma length_chunks: "length (chunks w v n) = n"
  by (induction n) auto

lemma foldl_chunks:
  "foldl (\<lambda>acc x. acc * 2 ^ w + x) a (chunks w v n) = a * 2 ^ (n * w) + take_bit (n * w) (unat v)"
proof (induction n arbitrary: a)
  case 0
  then show ?case by simp
next
  case (Suc n)
  let ?x = "unat v"
  have split: "?x mod (2 ^ (n * w) * 2 ^ w) = 2 ^ (n * w) * (?x div 2 ^ (n * w) mod 2 ^ w) + ?x mod 2 ^ (n * w)"
    by (rule mod_mult2_eq)
  have "foldl (\<lambda>acc x. acc * 2 ^ w + x) a (chunks w v (Suc n)) =
        (a * 2 ^ w + take_bit w (unat (drop_bit (n * w) v))) * 2 ^ (n * w) + take_bit (n * w) ?x"
    using Suc.IH by simp
  also have "take_bit w (unat (drop_bit (n * w) v)) = ?x div 2 ^ (n * w) mod 2 ^ w"
    by (simp only: unat_drop_bit_eq) (simp add: take_bit_eq_mod drop_bit_eq_div)
  also have "(a * 2 ^ w + ?x div 2 ^ (n * w) mod 2 ^ w) * 2 ^ (n * w) + take_bit (n * w) ?x =
        a * 2 ^ (Suc n * w) + ?x mod (2 ^ (n * w) * 2 ^ w)"
    unfolding split by (simp add: take_bit_eq_mod algebra_simps power_add)
  also have "?x mod (2 ^ (n * w) * 2 ^ w) = take_bit (Suc n * w) ?x"
    by (simp add: take_bit_eq_mod power_add mult.commute)
  finally show ?case .
qed

lemma concatMSF_chunks: "concatMSF w (chunks w v n) = take_bit (n * w) (unat v)"
  by (simp add: concatMSF_def foldl_chunks)

lemma chunks_take_bit:
  "n \<le> k \<Longrightarrow> chunks w (take_bit (k * w) v) n = chunks w v n"
proof (induction n)
  case 0
  then show ?case by simp
next
  case (Suc n)
  have le: "n * w + w \<le> k * w" using Suc.prems
    by (metis mult_Suc mult_le_mono1 add.commute)
  have "take_bit w (drop_bit (n * w) (take_bit (k * w) v)) =
        take_bit w (take_bit (k * w - n * w) (drop_bit (n * w) v))"
    by (simp only: drop_bit_take_bit)
  also have "\<dots> = take_bit w (drop_bit (n * w) v)"
    using le by (simp add: min_def)
  finally have "unat (take_bit w (drop_bit (n * w) (take_bit (k * w) v))) =
      unat (take_bit w (drop_bit (n * w) v))" by simp
  then have "take_bit w (unat (drop_bit (n * w) (take_bit (k * w) v))) =
      take_bit w (unat (drop_bit (n * w) v))"
    by (simp only: unsigned_take_bit_eq)
  with Suc show ?case by simp
qed

lemma chunks_cong:
  assumes "take_bit (n * w) v1 = take_bit (n * w) v2"
  shows "chunks w v1 n = chunks w v2 n"
proof -
  have "chunks w v1 n = chunks w (take_bit (n * w) v1) n" by (simp add: chunks_take_bit)
  also have "\<dots> = chunks w (take_bit (n * w) v2) n" by (simp only: assms)
  also have "\<dots> = chunks w v2 n" by (simp add: chunks_take_bit)
  finally show ?thesis .
qed

lemma matchAndRewrite_empty:
  "0 < wordSize op \<Longrightarrow> matchAndRewrite [] op =
     Some (Inr \<lparr>result = success,
                module_after = [GlobalOp ''rng_state'' ''private'' 128 0x7012395 False],
                emitted = loweredCode (delta op) (numElements op) (wordSize op)\<rparr>)"
  by (simp add: matchAndRewrite_returns lookupNearestSymbolFrom_def getOrDefineGlobal_None)

lemma chunks_2: "chunks w v 2 = [take_bit w (unat (drop_bit w v)), take_bit w (unat v)]"
  by (simp add: numeral_2_eq_2)

lemma chunks_seed_2x64: "chunks 64 (0x7012395 :: 128 word) 2 = [0, 0x7012395]"
  by (simp add: chunks_2 unat_drop_bit_eq drop_bit_eq_div take_bit_eq_mod)

text \<open>
  C3. For every 128-bit counter value, every element count in \<open>{0, 1, 2, 4}\<close> and element
  width in \<open>{8, 16, 32, 64}\<close> with \<open>N * E \<le> 128\<close>, in a module where the assertion
  holds, the lowered code produces the tensor of \<open>N\<close> elements of width \<open>E\<close> whose
  element \<open>j\<close> (counted from 0, most significant first) is the value shifted right by
  \<open>(N - 1 - j) * E\<close> and truncated to \<open>E\<close> bits; read most significant element first,
  the elements spell the low \<open>N * E\<close> bits of the value.
\<close>

theorem C3_packing_correct:
  assumes "numElements op \<in> {0, 1, 2, 4}" and "wordSize op \<in> {8, 16, 32, 64}"
    and "numElements op * wordSize op \<le> 128"
    and "\<forall>g. lookupNearestSymbolFrom m globalName = Some g \<longrightarrow> is_GlobalOp g"
  shows "\<exists>elems.
           packedOutput m op mem v = Some (Some (VTensor (wordSize op) elems)) \<and>
           elems = map (\<lambda>j. take_bit (wordSize op)
                              (unat (drop_bit ((numElements op - 1 - j) * wordSize op) v)))
                       [0..<numElements op] \<and>
           concatMSF (wordSize op) elems = take_bit (numElements op * wordSize op) (unat v)"
proof -
  have w: "0 < wordSize op" "wordSize op < 128" using assms(2) by auto
  have "numElements op = 0 \<or>
        wordSize op < 128 \<and> numElements op * wordSize op < 128 + wordSize op"
    using assms(3) w by simp
  with assms(4) w(1) have "packedOutput m op mem v =
     Some (Some (VTensor (wordSize op) (chunks (wordSize op) v (numElements op))))"
    by (rule packedOutput_ok)
  then show ?thesis
    using chunks_eq_map [of "wordSize op" v "numElements op"]
      concatMSF_chunks [of "wordSize op" v "numElements op"]
    by simp
qed

theorem C3_packing_correct_witness:
  "\<exists>elems. packedOutput [] \<lparr>delta = 5 :: 64 word, numElements = 2, wordSize = 64\<rparr> Map.empty 0x7012395 =
       Some (Some (VTensor 64 elems)) \<and>
     elems = map (\<lambda>j. take_bit 64 (unat (drop_bit ((2 - 1 - j) * 64) (0x7012395 :: 128 word)))) [0..<2] \<and>
     concatMSF 64 elems = take_bit (2 * 64) (unat (0x7012395 :: 128 word))"
  using C3_packing_correct [of "\<lparr>delta = 5 :: 64 word, numElements = 2, wordSize = 64\<rparr>" "[]"
      Map.empty "0x7012395"]
  by (simp add: lookupNearestSymbolFrom_def)

text \<open>
  C6. For every element count and width with \<open>N * E < 128\<close>, two counter values that
  agree on their low \<open>N * E\<close> bits give the same packed output: the bits at positions
  \<open>N * E\<close> and above reach no element.
\<close>

theorem C6_high_bits_discarded:
  assumes "numElements op * wordSize op < 128"
    and "take_bit (numElements op * wordSize op) v1 = take_bit (numElements op * wordSize op) v2"
  shows "packedOutput m op mem v1 = packedOutput m op mem v2"
proof -
  consider (abort) "matchAndRewrite m op = Some (Inl AssertionFailure)"
    | (diverge) "matchAndRewrite m op = None"
    | (ok) "is_GlobalOp (fst (getOrDefineGlobal m))" "0 < wordSize op"
    using matchAndRewrite_cases [of m op] by auto
  then show ?thesis
  proof cases
    case abort
    then show ?thesis by (simp add: packedOutput_def)
  next
    case diverge
    then show ?thesis by (simp add: packedOutput_def)
  next
    case ok
    have g: "\<forall>g. lookupNearestSymbolFrom m globalName = Some g \<longrightarrow> is_GlobalOp g"
      using ok(1) by (simp add: is_GlobalOp_getOrDefineGlobal)
    have s: "numElements op = 0 \<or>
        wordSize op < 128 \<and> numElements op * wordSize op < 128 + wordSize op"
    proof (cases "numElements op = 0")
      case True
      then show ?thesis by simp
    next
      case False
      then have "wordSize op \<le> numElements op * wordSize op"
        by (cases "numElements op") auto
      with assms(1) have "wordSize op < 128" by linarith
      with assms(1) show ?thesis by simp
    qed
    have "packedOutput m op mem v =
       Some (Some (VTensor (wordSize op) (chunks (wordSize op) v (numElements op))))" for v
      using g ok(2) s by (rule packedOutput_ok)
    moreover have "chunks (wordSize op) v1 (numElements op) = chunks (wordSize op) v2 (numElements op)"
      using assms(2) by (rule chunks_cong)
    ultimately show ?thesis by simp
  qed
qed


theorem C6_high_bits_discarded_witness:
  "packedOutput [] \<lparr>delta = 5 :: 64 word, numElements = 1, wordSize = 64\<rparr> Map.empty 0x7012395 =
   packedOutput [] \<lparr>delta = 5 :: 64 word, numElements = 1, wordSize = 64\<rparr> Map.empty 0x10000000007012395 \<and>
   packedOutput [] \<lparr>delta = 5 :: 64 word, numElements = 1, wordSize = 64\<rparr> Map.empty 0x10000000007012395 =
     Some (Some (VTensor 64 [0x7012395]))"
  using C6_high_bits_discarded [of "\<lparr>delta = 5 :: 64 word, numElements = 1, wordSize = 64\<rparr>"
      "0x7012395" "0x10000000007012395" "[]" Map.empty]
    packedOutput_ok [of "[]" "\<lparr>delta = 5 :: 64 word, numElements = 1, wordSize = 64\<rparr>" Map.empty "0x7012395"]
  by (simp add: lookupNearestSymbolFrom_def)

lemma take_updateCode: "take 5 (loweredCode d n w) = updateCode d"
  by (simp add: loweredCode_def length_updateCode)

lemma drop_updateCode:
  "drop 5 (loweredCode d n w) =
     chunkCode w 1 5 n @ [FromElementsOp w (chunkIds 5 n), UnrealizedConversionCastOp (5 + 3 * n)]"
  by (simp add: loweredCode_def length_updateCode)

lemma chunkCode_kinds:
  "ins \<in> set (chunkCode w oldVal base k) \<Longrightarrow>
     (\<exists>c. ins = ConstantOp c) \<or> (\<exists>s. ins = ShRUIOp oldVal s) \<or> (\<exists>a. ins = TruncIOp w a)"
  by (induction k arbitrary: base) auto

lemma unat_delta_constant:
  "unat (d :: 'w::len word) < 2 ^ 64 \<Longrightarrow> unat (getIntegerAttr (static_cast_int64 d)) = unat d"
  by (simp add: unat_getIntegerAttr static_cast_int64_def unat_ucast_small)

lemma unat_delta_constant64: "unat (getIntegerAttr (static_cast_int64 (d :: 64 word))) = unat d"
  using unsigned_less [of d] by (intro unat_delta_constant) simp

lemma delta_constant64: "getIntegerAttr (static_cast_int64 (d :: 64 word)) = ucast d"
  by (simp add: getIntegerAttr_def static_cast_int64_def)

lemma rewrite_cases:
  assumes "matchAndRewrite m op = Some (Inr r)"
  shows "r = \<lparr>result = success, module_after = snd (getOrDefineGlobal m),
               emitted = loweredCode (delta op) (numElements op) (wordSize op)\<rparr> \<and>
         is_GlobalOp (fst (getOrDefineGlobal m)) \<and> 0 < wordSize op"
  using matchAndRewrite_cases [of m op] assms by auto

lemma stored_value:
  assumes "mem globalName = Some old" and "unat (d :: 'w::len word) < 2 ^ 64"
  shows "map_option unat (fst (run mem (loweredCode d n w)) globalName) =
         Some ((unat old + unat d) mod 2 ^ 128)"
proof -
  have "fst (run mem (loweredCode d n w)) globalName =
        Some (old + getIntegerAttr (static_cast_int64 d))"
    using assms(1) by (simp add: fst_run_loweredCode [of mem old])
  moreover have "unat (old + getIntegerAttr (static_cast_int64 d)) =
     (unat old + unat d) mod 2 ^ 128"
    by (simp add: unat_word_ariths unat_delta_constant [OF assms(2)])
  ultimately show ?thesis by simp
qed

subsection \<open>Get and update\<close>

text \<open>
  C2. For every lowering (of an operation whose increment is a 64-bit value, the width the
  pattern reads it at) run on a counter holding \<open>old\<close>: the emitted sequence begins with
  the reference to the global, the load, the constant, the addition and the store, in this
  order, and no later operation loads or stores, so the load comes before the only store;
  the memory afterwards holds \<open>old + delta\<close> in the counter, the sum taken modulo
  \<open>2^128\<close>; every shift of the packing takes the loaded value (value 1), and for a
  result shape that fits the counter the value produced is the packing of \<open>old\<close>, the
  value before this lowering's increment.
\<close>

theorem C2_load_add_store:
  fixes op :: "64 XlaRngGetAndUpdateStateOp"
  assumes "matchAndRewrite m op = Some (Inr r)" and "mem globalName = Some old"
  shows "take 5 (emitted r) =
           [GetGlobalOp globalName, LoadOp 0, ConstantOp (ucast (delta op)), AddIOp 1 2,
            StoreOp 3 0] \<and>
         (\<forall>ins \<in> set (drop 5 (emitted r)).
            (\<forall>a. ins \<noteq> LoadOp a) \<and> (\<forall>a b. ins \<noteq> StoreOp a b) \<and>
            (\<forall>a b. ins = ShRUIOp a b \<longrightarrow> a = 1)) \<and>
         fst (run mem (emitted r)) = mem(globalName \<mapsto> old + ucast (delta op)) \<and>
         unat (old + ucast (delta op)) = (unat old + unat (delta op)) mod 2 ^ 128 \<and>
         (numElements op * wordSize op \<le> 128 \<and> wordSize op < 128 \<longrightarrow>
            snd (run mem (emitted r)) =
              Some (VTensor (wordSize op) (chunks (wordSize op) old (numElements op))))"
proof -
  let ?n = "numElements op" and ?w = "wordSize op"
  from rewrite_cases [OF assms(1)]
  have e: "emitted r = loweredCode (delta op) ?n ?w" and w: "0 < ?w" by auto
  have 1: "take 5 (emitted r) =
           [GetGlobalOp globalName, LoadOp 0, ConstantOp (ucast (delta op)), AddIOp 1 2,
            StoreOp 3 0]"
    by (simp add: e take_updateCode updateCode_def delta_constant64)
  have 2: "(\<forall>a. ins \<noteq> LoadOp a) \<and> (\<forall>a b. ins \<noteq> StoreOp a b) \<and>
            (\<forall>a b. ins = ShRUIOp a b \<longrightarrow> a = 1)" if "ins \<in> set (drop 5 (emitted r))" for ins
    using that chunkCode_kinds [of ins ?w 1 5 ?n] by (auto simp: e drop_updateCode)
  have 3: "fst (run mem (emitted r)) = mem(globalName \<mapsto> old + ucast (delta op))"
    using assms(2) by (simp add: e fst_run_loweredCode [of mem old] delta_constant64)
  have 4: "unat (old + ucast (delta op)) = (unat old + unat (delta op)) mod 2 ^ 128"
    using unat_delta_constant64 [of "delta op"]
    by (simp add: unat_word_ariths delta_constant64)
  have 5: "snd (run mem (emitted r)) = Some (VTensor ?w (chunks ?w old ?n))"
    if "?n * ?w \<le> 128 \<and> ?w < 128"
    using assms(2) that w unfolding e
    by (intro snd_run_loweredCode [of mem old]) auto
  from 1 2 3 4 5 show ?thesis by blast
qed


theorem C2_load_add_store_witness:
  "\<exists>r. matchAndRewrite [] \<lparr>delta = 5 :: 64 word, numElements = 2, wordSize = 64\<rparr> = Some (Inr r) \<and>
     take 5 (emitted r) =
       [GetGlobalOp globalName, LoadOp 0, ConstantOp 5, AddIOp 1 2, StoreOp 3 0] \<and>
     fst (run [globalName \<mapsto> 0x7012395] (emitted r)) = [globalName \<mapsto> 0x701239A] \<and>
     snd (run [globalName \<mapsto> 0x7012395] (emitted r)) = Some (VTensor 64 [0, 0x7012395])"
proof -
  let ?op = "\<lparr>delta = 5 :: 64 word, numElements = 2, wordSize = 64\<rparr>"
  let ?r = "\<lparr>result = success,
                module_after = [GlobalOp ''rng_state'' ''private'' 128 0x7012395 False],
                emitted = loweredCode (delta ?op) (numElements ?op) (wordSize ?op)\<rparr>"
  have m: "matchAndRewrite [] ?op = Some (Inr ?r)"
    by (rule matchAndRewrite_empty) simp
  have mem: "[globalName \<mapsto> 0x7012395 :: 128 word] globalName = Some 0x7012395" by simp
  note F = C2_load_add_store [where mem = "[globalName \<mapsto> 0x7012395]" and old = "0x7012395", OF m mem]
  have 1: "take 5 (emitted ?r) =
       [GetGlobalOp globalName, LoadOp 0, ConstantOp 5, AddIOp 1 2, StoreOp 3 0]"
    using F [THEN conjunct1] by simp
  have 3: "fst (run [globalName \<mapsto> 0x7012395] (emitted ?r)) = [globalName \<mapsto> 0x701239A]"
    using F [THEN conjunct2, THEN conjunct2, THEN conjunct1] by simp
  have 5: "snd (run [globalName \<mapsto> 0x7012395] (emitted ?r)) = Some (VTensor 64 [0, 0x7012395])"
    using F [THEN conjunct2, THEN conjunct2, THEN conjunct2, THEN conjunct2] by (simp add: chunks_seed_2x64)
  from m 1 3 5 show ?thesis by blast
qed








text \<open>
  C5. Two lowerings applied one after the other (64-bit increments \<open>d1\<close> then \<open>d2\<close>),
  their code run in this order on a counter holding \<open>V0\<close>: after the first the counter
  holds \<open>(V0 + d1) mod 2^128\<close>, after the second \<open>(V0 + d1 + d2) mod 2^128\<close>; for
  result shapes that fit the counter the first produces the packing of \<open>V0\<close> and the
  second the packing of \<open>V0 + d1\<close> (modulo \<open>2^128\<close>).
\<close>

theorem C5_value_threading:
  fixes op1 op2 :: "64 XlaRngGetAndUpdateStateOp"
  assumes "matchAndRewrite m op1 = Some (Inr r1)"
    and "matchAndRewrite (module_after r1) op2 = Some (Inr r2)"
    and "mem globalName = Some V0"
  shows "map_option unat (fst (run mem (emitted r1)) globalName) =
           Some ((unat V0 + unat (delta op1)) mod 2 ^ 128) \<and>
         map_option unat (fst (run (fst (run mem (emitted r1))) (emitted r2)) globalName) =
           Some ((unat V0 + unat (delta op1) + unat (delta op2)) mod 2 ^ 128) \<and>
         (numElements op1 * wordSize op1 \<le> 128 \<and> wordSize op1 < 128 \<longrightarrow>
            snd (run mem (emitted r1)) =
              Some (VTensor (wordSize op1) (chunks (wordSize op1) V0 (numElements op1)))) \<and>
         (numElements op2 * wordSize op2 \<le> 128 \<and> wordSize op2 < 128 \<longrightarrow>
            snd (run (fst (run mem (emitted r1))) (emitted r2)) =
              Some (VTensor (wordSize op2)
                     (chunks (wordSize op2) (V0 + ucast (delta op1)) (numElements op2))))"
proof -
  let ?n1 = "numElements op1" and ?w1 = "wordSize op1"
  let ?n2 = "numElements op2" and ?w2 = "wordSize op2"
  let ?V1 = "V0 + ucast (delta op1)"
  let ?mem1 = "mem(globalName \<mapsto> ?V1)"
  from rewrite_cases [OF assms(1)]
  have e1: "emitted r1 = loweredCode (delta op1) ?n1 ?w1" and w1: "0 < ?w1" by auto
  from rewrite_cases [OF assms(2)]
  have e2: "emitted r2 = loweredCode (delta op2) ?n2 ?w2" and w2: "0 < ?w2" by auto
  have m1: "fst (run mem (emitted r1)) = ?mem1"
    using assms(3) by (simp add: e1 fst_run_loweredCode [of mem V0] delta_constant64)
  have g1: "?mem1 globalName = Some ?V1" by simp
  have m2: "fst (run ?mem1 (emitted r2)) = ?mem1(globalName \<mapsto> ?V1 + ucast (delta op2))"
    using g1 by (simp add: e2 fst_run_loweredCode [of ?mem1 ?V1] delta_constant64)
  have u1: "unat ?V1 = (unat V0 + unat (delta op1)) mod 2 ^ 128"
    using unat_delta_constant64 [of "delta op1"]
    by (simp add: unat_word_ariths delta_constant64)
  have "unat (?V1 + ucast (delta op2)) = (unat ?V1 + unat (delta op2)) mod 2 ^ 128"
    using unat_delta_constant64 [of "delta op2"]
    by (simp add: unat_word_ariths delta_constant64)
  also have "\<dots> = (unat V0 + unat (delta op1) + unat (delta op2)) mod 2 ^ 128"
    unfolding u1 by (rule mod_add_left_eq)
  finally have u2: "unat (?V1 + ucast (delta op2)) =
      (unat V0 + unat (delta op1) + unat (delta op2)) mod 2 ^ 128" .
  have 1: "map_option unat (fst (run mem (emitted r1)) globalName) =
           Some ((unat V0 + unat (delta op1)) mod 2 ^ 128)"
    unfolding m1 using u1 by simp
  have 2: "map_option unat (fst (run (fst (run mem (emitted r1))) (emitted r2)) globalName) =
           Some ((unat V0 + unat (delta op1) + unat (delta op2)) mod 2 ^ 128)"
    unfolding m1 m2 using u2 by simp
  have 3: "snd (run mem (emitted r1)) = Some (VTensor ?w1 (chunks ?w1 V0 ?n1))"
    if "?n1 * ?w1 \<le> 128 \<and> ?w1 < 128"
    using assms(3) that w1 unfolding e1
    by (intro snd_run_loweredCode [of mem V0]) auto
  have 4: "snd (run (fst (run mem (emitted r1))) (emitted r2)) =
      Some (VTensor ?w2 (chunks ?w2 ?V1 ?n2))"
    if "?n2 * ?w2 \<le> 128 \<and> ?w2 < 128"
    using g1 that w2 unfolding e2 m1
    by (intro snd_run_loweredCode [of ?mem1 ?V1]) auto
  from 1 2 3 4 show ?thesis by blast
qed

theorem C5_value_threading_witness:
  "\<exists>r1 r2.
     matchAndRewrite [] \<lparr>delta = 5 :: 64 word, numElements = 2, wordSize = 64\<rparr> = Some (Inr r1) \<and>
     matchAndRewrite (module_after r1)
       \<lparr>delta = 0xFFFFFFFF :: 64 word, numElements = 2, wordSize = 64\<rparr> = Some (Inr r2) \<and>
     map_option unat (fst (run [globalName \<mapsto> 0x7012395] (emitted r1)) globalName) =
       Some 0x701239A \<and>
     map_option unat
       (fst (run (fst (run [globalName \<mapsto> 0x7012395] (emitted r1))) (emitted r2)) globalName) =
       Some 0x107012399"
proof -
  let ?op1 = "\<lparr>delta = 5 :: 64 word, numElements = 2, wordSize = 64\<rparr>"
  let ?op2 = "\<lparr>delta = 0xFFFFFFFF :: 64 word, numElements = 2, wordSize = 64\<rparr>"
  let ?g = "GlobalOp ''rng_state'' ''private'' 128 0x7012395 False"
  let ?r1 = "\<lparr>result = success, module_after = snd (getOrDefineGlobal []),
                emitted = loweredCode (delta ?op1) (numElements ?op1) (wordSize ?op1)\<rparr>"
  let ?r2 = "\<lparr>result = success, module_after = snd (getOrDefineGlobal [?g]),
                emitted = loweredCode (delta ?op2) (numElements ?op2) (wordSize ?op2)\<rparr>"
  have n: "lookupNearestSymbolFrom [] globalName = None"
    by (simp add: lookupNearestSymbolFrom_def)
  have m1: "matchAndRewrite [] ?op1 = Some (Inr ?r1)"
    by (rule matchAndRewrite_returns) (simp_all add: n)
  have a: "module_after ?r1 = [?g]"
    by (simp add: getOrDefineGlobal_None [OF n])
  have "matchAndRewrite [?g] ?op2 = Some (Inr ?r2)"
    by (rule matchAndRewrite_returns) (simp_all add: lookup_created)
  then have m2: "matchAndRewrite (module_after ?r1) ?op2 = Some (Inr ?r2)"
    by (simp only: a)
  have mem: "[globalName \<mapsto> 0x7012395 :: 128 word] globalName = Some 0x7012395" by simp
  note F = C5_value_threading [where mem = "[globalName \<mapsto> 0x7012395]" and ?V0.0 = "0x7012395",
      OF m1 m2 mem]
  have 1: "map_option unat (fst (run [globalName \<mapsto> 0x7012395] (emitted ?r1)) globalName) =
       Some 0x701239A"
    using F [THEN conjunct1] by simp
  have 2: "map_option unat
       (fst (run (fst (run [globalName \<mapsto> 0x7012395] (emitted ?r1))) (emitted ?r2)) globalName) =
       Some 0x107012399"
    using F [THEN conjunct2, THEN conjunct1] by simp
  from m1 m2 1 2 show ?thesis by blast
qed


subsection \<open>The created definition\<close>

text \<open>
  C7. When the lookup finds no \<open>rng_state\<close>, so that the first lowering creates the
  global, then after any number of further lowerings (all of positive element width) the
  module is the given one with the definition named \<open>rng_state\<close>, of visibility
  \<open>private\<close>, element width 128 and initial value \<open>0x7012395\<close> in front; the lookup
  finds this definition and it is the only global of that name.
\<close>

theorem C7_created_definition:
  assumes "lookupNearestSymbolFrom m globalName = None"
    and "\<forall>op \<in> set (op # ops). 0 < wordSize op"
  shows "\<exists>m' codes.
           applyPatterns m (op # ops) = Some (Inr (m', codes)) \<and>
           m' = GlobalOp ''rng_state'' ''private'' 128 0x7012395 False # m \<and>
           lookupNearestSymbolFrom m' globalName =
             Some (GlobalOp ''rng_state'' ''private'' 128 0x7012395 False) \<and>
           counterDefinitions m' = [GlobalOp ''rng_state'' ''private'' 128 0x7012395 False]"
proof -
  let ?g = "GlobalOp ''rng_state'' ''private'' 128 0x7012395 False"
  have "\<forall>g. lookupNearestSymbolFrom m globalName = Some g \<longrightarrow> is_GlobalOp g"
    using assms(1) by simp
  then have "applyPatterns m (op # ops) =
     Some (Inr (snd (getOrDefineGlobal m),
                map (\<lambda>op. loweredCode (delta op) (numElements op) (wordSize op)) (op # ops)))"
    using assms(2) by (rule applyPatterns_first)
  moreover have "snd (getOrDefineGlobal m) = ?g # m"
    by (simp add: getOrDefineGlobal_None [OF assms(1)])
  moreover have "lookupNearestSymbolFrom (?g # m) globalName = Some ?g"
    by (rule lookup_created)
  moreover have "counterDefinitions (?g # m) = [?g]"
    using assms(1) by (rule counterDefinitions_created)
  ultimately show ?thesis by simp
qed

theorem C7_created_definition_witness:
  "\<exists>m' codes.
     applyPatterns [OtherSymbolOp ''main'']
       [\<lparr>delta = 5 :: 64 word, numElements = 2, wordSize = 64\<rparr>,
        \<lparr>delta = 7, numElements = 1, wordSize = 32\<rparr>,
        \<lparr>delta = 9, numElements = 4, wordSize = 8\<rparr>] = Some (Inr (m', codes)) \<and>
     m' = [GlobalOp ''rng_state'' ''private'' 128 0x7012395 False, OtherSymbolOp ''main''] \<and>
     lookupNearestSymbolFrom m' globalName =
       Some (GlobalOp ''rng_state'' ''private'' 128 0x7012395 False) \<and>
     counterDefinitions m' = [GlobalOp ''rng_state'' ''private'' 128 0x7012395 False]"
proof -
  let ?m = "[OtherSymbolOp ''main'']"
  let ?op = "\<lparr>delta = 5 :: 64 word, numElements = 2, wordSize = 64\<rparr>"
  let ?ops = "[\<lparr>delta = 7 :: 64 word, numElements = 1, wordSize = 32\<rparr>,
        \<lparr>delta = 9, numElements = 4, wordSize = 8\<rparr>]"
  have n: "lookupNearestSymbolFrom ?m globalName = None"
    by (simp add: lookupNearestSymbolFrom_def globalName_def)
  have w: "\<forall>op \<in> set (?op # ?ops). 0 < wordSize op" by simp
  from C7_created_definition [OF n w] show ?thesis
    by (simp del: applyPatterns.simps)
qed

end
